theory Spec2Isabelle
  imports Main "HOL-Library.Sublist"
begin

section \<open>Dataset discovery and target selection (Project/utils/io.py)\<close>

text \<open>
  The module has three functions: \<open>find_csv\<close> (the spec's \<open>resolve_path\<close>),
  \<open>load_dataset\<close> and \<open>guess_target_column\<close> (the spec's \<open>guess_target\<close>).
  What they read from the process is made a parameter: the value of an environment
  variable is a \<open>string option\<close> (\<open>None\<close> when \<open>os.getenv\<close> returns \<open>None\<close>), the
  filesystem is a function telling what \<open>Path.exists\<close> does on each path,
  \<open>REPO_ROOT\<close> is a string, and the imported \<open>safe_col\<close> and pandas' \<open>read_csv\<close> are functions handed in.
  Python strings are modelled by \<open>string\<close>, that is over the code points below 256.
\<close>

subsection \<open>Errors and Python truthiness\<close>

text \<open>
  The exceptions the three functions can end with. \<open>OSError\<close> is an \<open>OSError\<close> other than
  \<open>FileNotFoundError\<close> (a \<open>PermissionError\<close>, a file name too long), with the message of
  the system call; \<open>AttributeError\<close> carries the name of the missing attribute.
\<close>

datatype error =
    ValueError string
  | FileNotFoundError string
  | OSError string
  | ParserError string
  | KeyError string
  | AttributeError string

text \<open>\<open>if env\<close>, \<open>not name\<close>, \<open>if explicit\<close>: \<open>None\<close> and the empty string are false.\<close>

fun truthy :: "string option \<Rightarrow> bool" where
  "truthy None = False"
| "truthy (Some s) = (s \<noteq> [])"

text \<open>\<open>a or b\<close> is \<open>a\<close> when \<open>a\<close> is true and \<open>b\<close> otherwise (whatever \<open>b\<close> is).\<close>

definition py_or :: "string option \<Rightarrow> string option \<Rightarrow> string option" where
  "py_or a b = (if truthy a then a else b)"

subsection \<open>find_csv\<close>

type_synonym path = string

text \<open>
  What \<open>pathlib.Path(p).exists()\<close> does: it returns \<open>True\<close>, it returns \<open>False\<close>, or it
  raises the \<open>OSError\<close> of the system call, which it does for every error number but
  ENOENT, ENOTDIR, EBADF and ELOOP (so on a file name too long, and under a directory
  that may not be searched). \<open>find_csv\<close> catches nothing.
\<close>

datatype probe = Present | Absent | Fails string

text \<open>
  \<open>REPO_ROOT / rel\<close> followed by \<open>str\<close>, for a POSIX path: \<open>REPO_ROOT\<close> is an absolute,
  resolved directory, which ends in a slash only when it is the root directory.
\<close>

definition joinpath :: "path \<Rightarrow> string \<Rightarrow> path" where
  "joinpath root rel = (if root = ''/'' then root @ rel else root @ ''/'' @ rel)"

definition candidate_names :: "string list" where
  "candidate_names =
     [''src/data/modeldata.csv'',
      ''src/data/modeldata_demo.csv'',
      ''Project/src/data/modeldata.csv'',
      ''Project/src/data/modeldata_demo.csv'',
      ''src/data/datasets/tabular/modeldata.csv'',
      ''src/data/datasets/tabular/modeldata_demo.csv'']"

definition candidates :: "path \<Rightarrow> path list" where
  "candidates root = map (joinpath root) candidate_names"

definition not_found_message :: string where
  "not_found_message =
     ''Could not locate dataset. Set CSV_PATH or place modeldata.csv under src/data/.''"

text \<open>
  The loop over the candidates. The result is paired with the list of paths whose
  existence was asked of the filesystem, in the order of the calls to \<open>exists\<close>.
\<close>

fun scan_candidates :: "(path \<Rightarrow> probe) \<Rightarrow> path list \<Rightarrow> path list \<times> (error + path)" where
  "scan_candidates fs [] = ([], Inl (FileNotFoundError not_found_message))"
| "scan_candidates fs (c # cs) =
     (case fs c of
        Present \<Rightarrow> ([c], Inr c)
      | Fails msg \<Rightarrow> ([c], Inl (OSError msg))
      | Absent \<Rightarrow> (case scan_candidates fs cs of (probed, r) \<Rightarrow> (c # probed, r)))"

text \<open>
  \<open>env and pathlib.Path(env).exists()\<close>: the filesystem is asked only when \<open>env\<close> is
  true. The first component is again the list of paths probed.
\<close>

definition find_csv_run ::
  "path \<Rightarrow> string option \<Rightarrow> (path \<Rightarrow> probe) \<Rightarrow> path list \<times> (error + path)" where
  "find_csv_run root env fs =
     (case env of
        None \<Rightarrow> scan_candidates fs (candidates root)
      | Some e \<Rightarrow>
          if e = [] then scan_candidates fs (candidates root)
          else
            (case fs e of
               Present \<Rightarrow> ([e], Inr e)
             | Fails msg \<Rightarrow> ([e], Inl (OSError msg))
             | Absent \<Rightarrow>
                 (case scan_candidates fs (candidates root) of
                    (probed, r) \<Rightarrow> (e # probed, r))))"

definition find_csv :: "path \<Rightarrow> string option \<Rightarrow> (path \<Rightarrow> probe) \<Rightarrow> error + path" where
  "find_csv root env fs = snd (find_csv_run root env fs)"

definition find_csv_probes :: "path \<Rightarrow> string option \<Rightarrow> (path \<Rightarrow> probe) \<Rightarrow> path list" where
  "find_csv_probes root env fs = fst (find_csv_run root env fs)"

subsection \<open>Tables\<close>

text \<open>
  A pandas column (\<open>Series\<close>) is its dtype and its cells. \<open>NA\<close> is a missing value
  (\<open>None\<close>, \<open>NaN\<close>); floating-point cells are left out of the model. A table
  (\<open>DataFrame\<close>) is the list of its columns in table order, each a label and a series;
  labels are strings, and a label may occur more than once.
\<close>

datatype dtype = BoolDtype | Int64Dtype | ObjectDtype

datatype cell = NA | BoolV bool | IntV int | StrV string

record series =
  dtype :: dtype
  cells :: "cell list"

type_synonym dataframe = "(string \<times> series) list"

definition columns :: "dataframe \<Rightarrow> string list" where
  "columns df = map fst df"

text \<open>
  \<open>df[col]\<close>: a label that is not a column raises \<open>KeyError\<close>, a label of one column
  gives its series, and a label of several columns gives the \<open>DataFrame\<close> of these
  columns.
\<close>

datatype selection = OneSeries series | SubFrame dataframe

fun select_item :: "dataframe \<Rightarrow> string \<Rightarrow> error + selection" where
  "select_item [] col = Inl (KeyError col)"
| "select_item [(label, s)] col = Inr (OneSeries s)"
| "select_item sub col = Inr (SubFrame sub)"

definition getitem :: "dataframe \<Rightarrow> string \<Rightarrow> error + selection" where
  "getitem df col = select_item (filter (\<lambda>(label, s). label = col) df) col"

subsection \<open>load_dataset\<close>

text \<open>\<open>df.rename(columns={old: new})\<close>: labels change, series and order stay.\<close>

definition rename_column :: "string \<Rightarrow> string \<Rightarrow> dataframe \<Rightarrow> dataframe" where
  "rename_column old new df = map (\<lambda>(n, s). (if n = old then new else n, s)) df"

definition load_dataset ::
  "path \<Rightarrow> string option \<Rightarrow> (path \<Rightarrow> probe) \<Rightarrow> (path \<Rightarrow> error + dataframe) \<Rightarrow> error + dataframe" where
  "load_dataset root env fs read_csv =
     (case find_csv root env fs of
        Inl e \<Rightarrow> Inl e
      | Inr p \<Rightarrow>
          (case read_csv p of
             Inl e \<Rightarrow> Inl e
           | Inr df \<Rightarrow>
               if ''IsInsurable'' \<notin> set (columns df) \<and> ''SLA_Breached'' \<in> set (columns df)
               then Inr (rename_column ''SLA_Breached'' ''IsInsurable'' df)
               else Inr df))"

subsection \<open>Strings: str, strip, lower\<close>

text \<open>\<open>str.isspace\<close> on the code points below 256.\<close>

definition isspace :: "char \<Rightarrow> bool" where
  "isspace c = (let n = (of_char c :: nat) in (9 \<le> n \<and> n \<le> 13) \<or> (28 \<le> n \<and> n \<le> 32) \<or> n = 133 \<or> n = 160)"

definition strip :: "string \<Rightarrow> string" where
  "strip s = rev (dropWhile isspace (rev (dropWhile isspace s)))"

text \<open>\<open>str.lower\<close> on the code points below 256: A-Z and the capital letters of Latin-1.\<close>

definition lower_char :: "char \<Rightarrow> char" where
  "lower_char c =
     (let n = (of_char c :: nat)
      in if (65 \<le> n \<and> n \<le> 90) \<or> (192 \<le> n \<and> n \<le> 222 \<and> n \<noteq> 215) then char_of (n + 32) else c)"

definition lower :: "string \<Rightarrow> string" where
  "lower s = map lower_char s"

definition digit_char :: "nat \<Rightarrow> char" where
  "digit_char d = char_of (48 + d)"

fun digits :: "nat \<Rightarrow> string" where
  "digits n = (if n < 10 then [digit_char n] else digits (n div 10) @ [digit_char (n mod 10)])"

definition str_int :: "int \<Rightarrow> string" where
  "str_int i = (if i < 0 then ''-'' @ digits (nat (- i)) else digits (nat i))"

fun str_cell :: "cell \<Rightarrow> string" where
  "str_cell NA = ''nan''"
| "str_cell (BoolV b) = (if b then ''True'' else ''False'')"
| "str_cell (IntV i) = str_int i"
| "str_cell (StrV s) = s"

subsection \<open>_is_binary\<close>

definition dropna :: "cell list \<Rightarrow> cell list" where
  "dropna cs = filter (\<lambda>c. c \<noteq> NA) cs"

text \<open>
  \<open>unique\<close> keeps the first occurrence of each value, and two cells of an object column
  are the same value when Python says they are equal: \<open>True == 1\<close> and \<open>False == 0\<close>.
\<close>

fun py_key :: "cell \<Rightarrow> cell" where
  "py_key (BoolV b) = IntV (if b then 1 else 0)"
| "py_key c = c"

definition py_eq :: "cell \<Rightarrow> cell \<Rightarrow> bool" where
  "py_eq a b = (py_key a = py_key b)"

fun unique :: "cell list \<Rightarrow> cell list" where
  "unique [] = []"
| "unique (x # xs) = x # unique (filter (\<lambda>y. \<not> py_eq y x) xs)"

definition binary_words :: "string list" where
  "binary_words = [''yes'', ''no'', ''true'', ''false'', ''0'', ''1'']"

definition is_binary :: "series \<Rightarrow> bool" where
  "is_binary s =
     (if dtype s = BoolDtype then True
      else
        let values = unique (dropna (cells s))
        in if length values = 0 then False
           else if length values \<le> 2 then True
           else
             let lowered = set (map (\<lambda>v. lower (strip (str_cell v)))
                                    (filter (\<lambda>v. strip (str_cell v) \<noteq> []) values))
             in lowered \<subseteq> set binary_words)"

text \<open>
  \<open>_is_binary(df[col])\<close>: on a \<open>DataFrame\<close> the first line, \<open>series.dtype\<close>, raises
  \<open>AttributeError\<close>, a \<open>DataFrame\<close> having no attribute \<open>dtype\<close>.
\<close>

fun is_binary_item :: "selection \<Rightarrow> error + bool" where
  "is_binary_item (OneSeries s) = Inr (is_binary s)"
| "is_binary_item (SubFrame sub) = Inl (AttributeError ''dtype'')"

subsection \<open>guess_target_column\<close>

text \<open>The inner function \<open>_resolve\<close>; the loop over the two variants is \<open>find\<close>.\<close>

fun resolve :: "(string \<Rightarrow> string) \<Rightarrow> dataframe \<Rightarrow> string option \<Rightarrow> string option" where
  "resolve safe_col df None = None"
| "resolve safe_col df (Some name) =
     (if name = [] then None
      else
        let name_clean = strip name;
            variants = [name_clean, safe_col name_clean]
        in find (\<lambda>variant. variant \<in> set (columns df)) variants)"

text \<open>
  \<open>[col for col in candidates if _is_binary(df[col])]\<close>, the columns taken in order: the
  first exception ends the comprehension.
\<close>

fun binary_cols :: "dataframe \<Rightarrow> string list \<Rightarrow> error + string list" where
  "binary_cols df [] = Inr []"
| "binary_cols df (col # rest) =
     (case getitem df col of
        Inl e \<Rightarrow> Inl e
      | Inr item \<Rightarrow>
          (case is_binary_item item of
             Inl e \<Rightarrow> Inl e
           | Inr b \<Rightarrow>
               (case binary_cols df rest of
                  Inl e \<Rightarrow> Inl e
                | Inr bs \<Rightarrow> Inr (if b then col # bs else bs))))"

text \<open>\<open>col.lower().startswith("i")\<close>\<close>

definition starts_with_i :: "string \<Rightarrow> bool" where
  "starts_with_i col = prefix ''i'' (lower col)"

text \<open>The value of the local variable \<open>explicit\<close>.\<close>

definition explicit_target ::
  "(string \<Rightarrow> string) \<Rightarrow> string option \<Rightarrow> dataframe \<Rightarrow> string option \<Rightarrow> string option" where
  "explicit_target safe_col env_target df preferred =
     py_or (py_or (resolve safe_col df preferred) (resolve safe_col df env_target))
           (resolve safe_col df (Some ''IsInsurable''))"

text \<open>The end of the function, from \<open>binary_cols\<close> on, where no explicit name is taken.\<close>

definition heuristic_target :: "dataframe \<Rightarrow> error + string" where
  "heuristic_target df =
     (let candidates = columns df
      in case binary_cols df candidates of
           Inl e \<Rightarrow> Inl e
         | Inr bcs \<Rightarrow>
             (case filter starts_with_i bcs of
                p # _ \<Rightarrow> Inr p
              | [] \<Rightarrow>
                  (case bcs of
                     b # _ \<Rightarrow> Inr b
                   | [] \<Rightarrow> Inr (last candidates))))"

definition empty_table_message :: string where
  "empty_table_message = ''Dataframe has no columns to select a target from.''"

definition guess_target_column ::
  "(string \<Rightarrow> string) \<Rightarrow> string option \<Rightarrow> dataframe \<Rightarrow> string option \<Rightarrow> error + string" where
  "guess_target_column safe_col env_target df preferred =
     (if columns df = [] then Inl (ValueError empty_table_message)
      else
        (case explicit_target safe_col env_target df preferred of
           None \<Rightarrow> heuristic_target df
         | Some e \<Rightarrow> if e = [] then heuristic_target df else Inr e))"

subsection \<open>The target selection as the specification words it\<close>

text \<open>
  The definitions of this part follow the words of the specification, for tables in
  which no label occurs twice. The specification's name resolution: trim the candidate, take it when it is a column,
  else its sanitized form when that is a column, else there is no match.
\<close>

definition spec_resolve :: "(string \<Rightarrow> string) \<Rightarrow> dataframe \<Rightarrow> string option \<Rightarrow> string option" where
  "spec_resolve sanitize df candidate =
     (case candidate of
        None \<Rightarrow> None
      | Some name \<Rightarrow>
          let trimmed = strip name
          in if trimmed \<in> set (columns df) then Some trimmed
             else if sanitize trimmed \<in> set (columns df) then Some (sanitize trimmed)
             else None)"

definition column_is_binary :: "dataframe \<Rightarrow> string \<Rightarrow> bool" where
  "column_is_binary df col = (case map_of df col of None \<Rightarrow> False | Some s \<Rightarrow> is_binary s)"

definition name_starts_with_I :: "string \<Rightarrow> bool" where
  "name_starts_with_I col = (case col of [] \<Rightarrow> False | c # _ \<Rightarrow> c = CHR ''I'' \<or> c = CHR ''i'')"

text \<open>Steps 4 to 6 of the selection order.\<close>

definition spec_heuristic :: "dataframe \<Rightarrow> string" where
  "spec_heuristic df =
     (case find (\<lambda>col. column_is_binary df col \<and> name_starts_with_I col) (columns df) of
        Some col \<Rightarrow> col
      | None \<Rightarrow>
          (case find (column_is_binary df) (columns df) of
             Some col \<Rightarrow> col
           | None \<Rightarrow> last (columns df)))"

text \<open>Steps 1 to 6, each resolution step succeeding as soon as it has a match.\<close>

definition spec_guess_target ::
  "(string \<Rightarrow> string) \<Rightarrow> string option \<Rightarrow> dataframe \<Rightarrow> string option \<Rightarrow> string" where
  "spec_guess_target sanitize env_target df preferred =
     (case spec_resolve sanitize df preferred of
        Some col \<Rightarrow> col
      | None \<Rightarrow>
          (case spec_resolve sanitize df env_target of
             Some col \<Rightarrow> col
           | None \<Rightarrow>
               (case spec_resolve sanitize df (Some ''IsInsurable'') of
                  Some col \<Rightarrow> col
                | None \<Rightarrow> spec_heuristic df)))"

text \<open>
  The same order where a resolution step succeeds only on a non-empty candidate and with
  a non-empty matched name.
\<close>

definition nonempty_resolve :: "(string \<Rightarrow> string) \<Rightarrow> dataframe \<Rightarrow> string option \<Rightarrow> string option" where
  "nonempty_resolve sanitize df candidate =
     (case candidate of
        None \<Rightarrow> None
      | Some name \<Rightarrow>
          if name = [] then None
          else (case spec_resolve sanitize df (Some name) of
                  None \<Rightarrow> None
                | Some col \<Rightarrow> if col = [] then None else Some col))"

definition nonempty_guess_target ::
  "(string \<Rightarrow> string) \<Rightarrow> string option \<Rightarrow> dataframe \<Rightarrow> string option \<Rightarrow> string" where
  "nonempty_guess_target sanitize env_target df preferred =
     (case nonempty_resolve sanitize df preferred of
        Some col \<Rightarrow> col
      | None \<Rightarrow>
          (case nonempty_resolve sanitize df env_target of
             Some col \<Rightarrow> col
           | None \<Rightarrow>
               (case nonempty_resolve sanitize df (Some ''IsInsurable'') of
                  Some col \<Rightarrow> col
                | None \<Rightarrow> spec_heuristic df)))"

subsection \<open>Concrete inputs\<close>

text \<open>A filesystem in which exactly the listed paths exist, and no check raises.\<close>

definition fs_of :: "path list \<Rightarrow> path \<Rightarrow> probe" where
  "fs_of ps p = (if p \<in> set ps then Present else Absent)"

text \<open>The same filesystem but for one path, on which \<open>exists\<close> raises.\<close>

definition fails_at :: "path \<Rightarrow> string \<Rightarrow> (path \<Rightarrow> probe) \<Rightarrow> path \<Rightarrow> probe" where
  "fails_at q msg fs p = (if p = q then Fails msg else fs p)"

text \<open>A file name of 256 characters, longer than a file name may be.\<close>

definition long_name :: path where
  "long_name = replicate 256 (CHR ''a'')"

definition text_column :: "string list \<Rightarrow> series" where
  "text_column ws = \<lparr>dtype = ObjectDtype, cells = map StrV ws\<rparr>"

definition int_column :: "int list \<Rightarrow> series" where
  "int_column ns = \<lparr>dtype = Int64Dtype, cells = map IntV ns\<rparr>"

definition bool_column :: "bool list \<Rightarrow> series" where
  "bool_column bs = \<lparr>dtype = BoolDtype, cells = map BoolV bs\<rparr>"

text \<open>
  The test of one value in the last line of \<open>_is_binary\<close>: a blank value is skipped,
  any other must be one of the six words once stripped and lower-cased.
\<close>

definition word_ok :: "cell \<Rightarrow> bool" where
  "word_ok v = (strip (str_cell v) \<noteq> [] \<longrightarrow> lower (strip (str_cell v)) \<in> set binary_words)"

declare digits.simps [simp del]

section \<open>Lemmas on the path resolver\<close>

lemma find_mem: "find P xs = Some x \<Longrightarrow> x \<in> set xs \<and> P x"
  by (induction xs) (auto split: if_splits)

lemma find_filter_hd: "find P xs = (case filter P xs of [] \<Rightarrow> None | x # _ \<Rightarrow> Some x)"
  by (induction xs) auto

lemma scan_candidates_found:
  "i < length cs \<Longrightarrow> fs (cs ! i) = Present \<Longrightarrow> \<forall>j<i. fs (cs ! j) = Absent \<Longrightarrow>
   snd (scan_candidates fs cs) = Inr (cs ! i)"
proof (induction cs arbitrary: i)
  case Nil
  then show ?case by simp
next
  case (Cons c cs)
  show ?case
  proof (cases i)
    case 0
    with Cons.prems show ?thesis by simp
  next
    case (Suc k)
    with Cons.prems have c: "fs c = Absent" by auto
    from Suc Cons.prems have "k < length cs" "fs (cs ! k) = Present" "\<forall>j<k. fs (cs ! j) = Absent"
      by auto
    then have "snd (scan_candidates fs cs) = Inr (cs ! k)" by (rule Cons.IH)
    with c Suc show ?thesis by (cases "scan_candidates fs cs") simp
  qed
qed

lemma scan_candidates_none:
  "\<forall>c\<in>set cs. fs c = Absent \<Longrightarrow>
   snd (scan_candidates fs cs) = Inl (FileNotFoundError not_found_message)"
  by (induction cs) (auto split: prod.splits)

lemma scan_probes_subset: "set (fst (scan_candidates fs cs)) \<subseteq> set cs"
  by (induction cs) (auto split: prod.splits probe.splits)

lemma find_csv_unset: "find_csv root None fs = snd (scan_candidates fs (candidates root))"
  by (simp add: find_csv_def find_csv_run_def)

lemma find_csv_absent:
  "fs p = Absent \<Longrightarrow> find_csv root (Some p) fs = snd (scan_candidates fs (candidates root))"
  by (simp add: find_csv_def find_csv_run_def split: prod.splits)

lemma empty_not_candidate: "[] \<notin> set (candidates root)"
  by (auto simp: candidates_def joinpath_def)

lemma candidates_repo:
  "candidates ''/repo'' =
     [''/repo/src/data/modeldata.csv'',
      ''/repo/src/data/modeldata_demo.csv'',
      ''/repo/Project/src/data/modeldata.csv'',
      ''/repo/Project/src/data/modeldata_demo.csv'',
      ''/repo/src/data/datasets/tabular/modeldata.csv'',
      ''/repo/src/data/datasets/tabular/modeldata_demo.csv'']"
  by (simp add: candidates_def candidate_names_def joinpath_def)

section \<open>The path resolver: claims C5, C6, C7 and C9\<close>

text \<open>
  C5, as amended. When \<open>CSV_PATH\<close> is set to a non-empty string that names an existing
  path, \<open>find_csv\<close> returns exactly that string, whichever candidate files exist.
\<close>

theorem find_csv_nonempty_override:
  "p \<noteq> [] \<Longrightarrow> fs p = Present \<Longrightarrow> find_csv root (Some p) fs = Inr p"
  by (simp add: find_csv_def find_csv_run_def)

theorem find_csv_nonempty_override_witness:
  "''data.csv'' \<noteq> []
   \<and> fs_of [''data.csv'', ''/repo/src/data/modeldata.csv''] ''data.csv'' = Present
   \<and> find_csv ''/repo'' (Some ''data.csv'') (fs_of [''data.csv'', ''/repo/src/data/modeldata.csv''])
       = Inr ''data.csv''"
proof -
  have h1: "''data.csv'' \<noteq> []" by simp
  have h2: "fs_of [''data.csv'', ''/repo/src/data/modeldata.csv''] ''data.csv'' = Present"
    by (simp add: fs_of_def)
  from h1 h2
    find_csv_nonempty_override
      [where p = "''data.csv''" and root = "''/repo''"
         and fs = "fs_of [''data.csv'', ''/repo/src/data/modeldata.csv'']"]
  show ?thesis by simp
qed

text \<open>
  C5 as stated fails when \<open>CSV_PATH\<close> is the empty string: \<open>pathlib.Path("")\<close> is the
  current directory, which exists, yet the guard \<open>env and ...\<close> skips the override. Here
  the empty path exists, no candidate does, and the result is not the empty path.
\<close>

theorem find_csv_empty_override_counterexample:
  "fs_of [[]] [] = Present \<and> find_csv ''/repo'' (Some []) (fs_of [[]]) \<noteq> Inr []"
  by (simp add: find_csv_def find_csv_run_def candidates_repo fs_of_def)

text \<open>
  C6, as amended. When \<open>CSV_PATH\<close> is set to a path whose existence check returns
  false, a candidate exists, and the existence check of every candidate before the
  first that exists returns false (none raises), \<open>find_csv\<close> does not fail: it ignores
  the override and returns the first candidate, in the fixed order, that exists.
\<close>

theorem find_csv_missing_override_falls_through:
  assumes "fs p = Absent"
    and "i < length (candidates root)"
    and "fs (candidates root ! i) = Present"
    and "\<forall>j<i. fs (candidates root ! j) = Absent"
  shows "find_csv root (Some p) fs = Inr (candidates root ! i)"
  using assms by (simp add: find_csv_absent scan_candidates_found)

theorem find_csv_missing_override_falls_through_witness:
  "find_csv ''/repo'' (Some ''gone.csv'')
     (fs_of [''/repo/src/data/modeldata_demo.csv'', ''/repo/Project/src/data/modeldata.csv''])
     = Inr ''/repo/src/data/modeldata_demo.csv''"
proof -
  let ?fs = "fs_of [''/repo/src/data/modeldata_demo.csv'', ''/repo/Project/src/data/modeldata.csv'']"
  have h1: "?fs ''gone.csv'' = Absent" by (simp add: fs_of_def)
  have h2: "Suc 0 < length (candidates ''/repo'')" by (simp add: candidates_repo)
  have h3: "?fs (candidates ''/repo'' ! Suc 0) = Present" by (simp add: fs_of_def candidates_repo)
  have h4: "\<forall>j<Suc 0. ?fs (candidates ''/repo'' ! j) = Absent"
    by (simp add: fs_of_def candidates_repo)
  have "candidates ''/repo'' ! Suc 0 = ''/repo/src/data/modeldata_demo.csv''"
    by (simp add: candidates_repo)
  with find_csv_missing_override_falls_through [OF h1 h2 h3 h4] show ?thesis
    by (simp only:)
qed

text \<open>
  C6 as stated fails where an existence check raises, \<open>find_csv\<close> catching nothing. A
  file name of 256 characters names no file, and \<open>exists\<close> raises \<open>OSError\<close> on it: with
  such a \<open>CSV_PATH\<close> and the first candidate in place \<open>find_csv\<close> fails. And with a
  \<open>CSV_PATH\<close> that is absent and the second candidate in place, \<open>find_csv\<close> fails when
  the first candidate lies under a directory that may not be searched.
\<close>

theorem find_csv_missing_override_counterexample:
  "fails_at long_name ''File name too long'' (fs_of [''/repo/src/data/modeldata.csv'']) long_name
     \<noteq> Present
   \<and> fails_at long_name ''File name too long'' (fs_of [''/repo/src/data/modeldata.csv''])
       ''/repo/src/data/modeldata.csv'' = Present
   \<and> find_csv ''/repo'' (Some long_name)
       (fails_at long_name ''File name too long'' (fs_of [''/repo/src/data/modeldata.csv'']))
     = Inl (OSError ''File name too long'')
   \<and> fails_at ''/repo/src/data/modeldata.csv'' ''Permission denied''
       (fs_of [''/repo/src/data/modeldata_demo.csv'']) ''gone.csv'' = Absent
   \<and> fails_at ''/repo/src/data/modeldata.csv'' ''Permission denied''
       (fs_of [''/repo/src/data/modeldata_demo.csv'']) ''/repo/src/data/modeldata_demo.csv''
     = Present
   \<and> find_csv ''/repo'' (Some ''gone.csv'')
       (fails_at ''/repo/src/data/modeldata.csv'' ''Permission denied''
          (fs_of [''/repo/src/data/modeldata_demo.csv'']))
     = Inl (OSError ''Permission denied'')"
  by (intro conjI; code_simp)

text \<open>
  C7, as amended. When \<open>CSV_PATH\<close> is unset, or names a path whose existence check
  returns false, and the existence check of every candidate returns false (none
  raises), \<open>find_csv\<close> fails with \<open>FileNotFoundError\<close>, and the message contains the
  name of the override variable, \<open>CSV_PATH\<close>, and the default subdirectory, \<open>src/data/\<close>.
\<close>

theorem find_csv_not_found:
  assumes "env = None \<or> (\<exists>p. env = Some p \<and> fs p = Absent)"
    and "\<forall>c\<in>set (candidates root). fs c = Absent"
  shows "find_csv root env fs = Inl (FileNotFoundError not_found_message)
         \<and> sublist ''CSV_PATH'' not_found_message
         \<and> sublist ''src/data/'' not_found_message"
proof -
  from assms(1) have "find_csv root env fs = snd (scan_candidates fs (candidates root))"
    by (auto simp: find_csv_unset find_csv_absent)
  with assms(2) have "find_csv root env fs = Inl (FileNotFoundError not_found_message)"
    by (simp add: scan_candidates_none)
  moreover have "sublist ''CSV_PATH'' not_found_message" by code_simp
  moreover have "sublist ''src/data/'' not_found_message" by code_simp
  ultimately show ?thesis by simp
qed

theorem find_csv_not_found_witness:
  "find_csv ''/repo'' (Some ''gone.csv'') (fs_of [''/tmp/other.csv''])
     = Inl (FileNotFoundError
         ''Could not locate dataset. Set CSV_PATH or place modeldata.csv under src/data/.'')"
proof -
  have h1: "Some ''gone.csv'' = None
      \<or> (\<exists>p. Some ''gone.csv'' = Some p \<and> fs_of [''/tmp/other.csv''] p = Absent)"
    by (simp add: fs_of_def)
  have h2: "\<forall>c\<in>set (candidates ''/repo''). fs_of [''/tmp/other.csv''] c = Absent"
    by (simp add: fs_of_def candidates_repo)
  from find_csv_not_found [OF h1 h2] show ?thesis
    by (simp add: not_found_message_def)
qed

text \<open>
  C7 as stated fails where an existence check raises: no path exists in either
  filesystem here, and \<open>find_csv\<close> ends with the \<open>OSError\<close> of the check, on a
  \<open>CSV_PATH\<close> of 256 characters, and, with \<open>CSV_PATH\<close> unset, on a first candidate under
  a directory that may not be searched. Neither is a \<open>FileNotFoundError\<close>.
\<close>

theorem find_csv_not_found_counterexample:
  "find_csv ''/repo'' (Some long_name) (fails_at long_name ''File name too long'' (fs_of []))
     = Inl (OSError ''File name too long'')
   \<and> find_csv ''/repo'' None
       (fails_at ''/repo/src/data/modeldata.csv'' ''Permission denied'' (fs_of []))
     = Inl (OSError ''Permission denied'')"
  by (intro conjI; code_simp)

text \<open>
  C9. With \<open>CSV_PATH\<close> set to the empty string \<open>find_csv\<close> does what it does with
  \<open>CSV_PATH\<close> unset: the same result after the same existence checks, none of them of
  the empty path, whatever the filesystem says of the empty path.
\<close>

theorem find_csv_empty_override_as_unset:
  "find_csv root (Some []) fs = find_csv root None fs
   \<and> find_csv_probes root (Some []) fs = find_csv_probes root None fs
   \<and> [] \<notin> set (find_csv_probes root (Some []) fs)"
proof -
  have "set (find_csv_probes root (Some []) fs) \<subseteq> set (candidates root)"
    by (simp add: find_csv_probes_def find_csv_run_def scan_probes_subset)
  then have "[] \<notin> set (find_csv_probes root (Some []) fs)"
    using empty_not_candidate [of root] by blast
  then show ?thesis
    by (simp add: find_csv_def find_csv_probes_def find_csv_run_def)
qed

theorem find_csv_empty_override_as_unset_witness:
  "find_csv ''/repo'' (Some []) (fs_of [[], ''/repo/src/data/modeldata_demo.csv''])
     = Inr ''/repo/src/data/modeldata_demo.csv''
   \<and> find_csv ''/repo'' None (fs_of [[], ''/repo/src/data/modeldata_demo.csv''])
     = Inr ''/repo/src/data/modeldata_demo.csv''
   \<and> find_csv_probes ''/repo'' (Some []) (fs_of [[], ''/repo/src/data/modeldata_demo.csv''])
     = [''/repo/src/data/modeldata.csv'', ''/repo/src/data/modeldata_demo.csv'']"
proof -
  let ?fs = "fs_of [[], ''/repo/src/data/modeldata_demo.csv'']"
  have "find_csv_run ''/repo'' None ?fs
      = ([''/repo/src/data/modeldata.csv'', ''/repo/src/data/modeldata_demo.csv''],
         Inr ''/repo/src/data/modeldata_demo.csv'')"
    by (simp add: find_csv_run_def candidates_repo fs_of_def)
  then have "find_csv ''/repo'' None ?fs = Inr ''/repo/src/data/modeldata_demo.csv''"
    and "find_csv_probes ''/repo'' None ?fs
      = [''/repo/src/data/modeldata.csv'', ''/repo/src/data/modeldata_demo.csv'']"
    by (simp_all add: find_csv_def find_csv_probes_def)
  with find_csv_empty_override_as_unset [of "''/repo''" ?fs] show ?thesis by simp
qed

section \<open>The dataset loader: claim C8\<close>

lemma rename_column_length: "length (rename_column old new df) = length df"
  by (simp add: rename_column_def)

lemma rename_column_nth:
  "i < length df \<Longrightarrow>
   rename_column old new df ! i = ((if fst (df ! i) = old then new else fst (df ! i)), snd (df ! i))"
  by (simp add: rename_column_def split: prod.splits)

text \<open>
  C8. For every table that \<open>read_csv\<close> returns: when the table has a column
  \<open>SLA_Breached\<close> and no column \<open>IsInsurable\<close>, \<open>load_dataset\<close> returns the table with
  that label replaced by \<open>IsInsurable\<close>, the series and the position of every column
  kept and every other label kept; otherwise (both present, or \<open>SLA_Breached\<close> absent)
  it returns the table unchanged.
\<close>

theorem load_dataset_rename:
  assumes "find_csv root env fs = Inr p" and "read_csv p = Inr df"
  shows "(''SLA_Breached'' \<in> set (columns df) \<and> ''IsInsurable'' \<notin> set (columns df) \<longrightarrow>
            (\<exists>df'. load_dataset root env fs read_csv = Inr df'
               \<and> length df' = length df
               \<and> (\<forall>i<length df.
                     snd (df' ! i) = snd (df ! i)
                     \<and> fst (df' ! i) = (if fst (df ! i) = ''SLA_Breached'' then ''IsInsurable'' else fst (df ! i)))
               \<and> ''SLA_Breached'' \<notin> set (columns df') \<and> ''IsInsurable'' \<in> set (columns df')))
       \<and> (\<not> (''SLA_Breached'' \<in> set (columns df) \<and> ''IsInsurable'' \<notin> set (columns df)) \<longrightarrow>
            load_dataset root env fs read_csv = Inr df)"
proof -
  have "''SLA_Breached'' \<notin> set (columns (rename_column ''SLA_Breached'' ''IsInsurable'' df))"
    by (auto simp: columns_def rename_column_def split: if_splits)
  moreover have "''SLA_Breached'' \<in> set (columns df) \<Longrightarrow>
      ''IsInsurable'' \<in> set (columns (rename_column ''SLA_Breached'' ''IsInsurable'' df))"
    by (force simp: columns_def rename_column_def)
  ultimately show ?thesis
    using assms by (simp add: load_dataset_def rename_column_length rename_column_nth)
qed

theorem load_dataset_rename_witness:
  "load_dataset ''/repo'' (Some ''data.csv'') (fs_of [''data.csv''])
       (\<lambda>p. Inr [(''id'', int_column [7, 8]), (''sla_breached'', int_column [1, 1]),
                   (''SLA_Breached'', int_column [0, 1])])
     = Inr [(''id'', int_column [7, 8]), (''sla_breached'', int_column [1, 1]),
            (''IsInsurable'', int_column [0, 1])]
   \<and> load_dataset ''/repo'' (Some ''data.csv'') (fs_of [''data.csv''])
       (\<lambda>p. Inr [(''IsInsurable'', int_column [1, 1]), (''SLA_Breached'', int_column [0, 1])])
     = Inr [(''IsInsurable'', int_column [1, 1]), (''SLA_Breached'', int_column [0, 1])]"
proof -
  let ?df = "[(''id'', int_column [7, 8]), (''sla_breached'', int_column [1, 1]),
              (''SLA_Breached'', int_column [0, 1])]"
  let ?both = "[(''IsInsurable'', int_column [1, 1]), (''SLA_Breached'', int_column [0, 1])]"
  have h1: "find_csv ''/repo'' (Some ''data.csv'') (fs_of [''data.csv'']) = Inr ''data.csv''"
    by (simp add: find_csv_def find_csv_run_def fs_of_def)
  have h2: "(\<lambda>p. Inr ?df :: error + dataframe) ''data.csv'' = Inr ?df" by simp
  have h3: "(\<lambda>p. Inr ?both :: error + dataframe) ''data.csv'' = Inr ?both" by simp
  from load_dataset_rename [OF h1 h2]
  obtain df' where r: "load_dataset ''/repo'' (Some ''data.csv'') (fs_of [''data.csv''])
        (\<lambda>p. Inr ?df) = Inr df'"
      and len: "length df' = 3"
      and cols: "\<forall>i<3. snd (df' ! i) = snd (?df ! i)
          \<and> fst (df' ! i) = (if fst (?df ! i) = ''SLA_Breached'' then ''IsInsurable'' else fst (?df ! i))"
    by (auto simp: columns_def)
  from len obtain a b c where d: "df' = [a, b, c]"
    by (auto simp: numeral_3_eq_3 length_Suc_conv)
  from cols have "\<forall>i\<in>{0, 1, 2}. snd (df' ! i) = snd (?df ! i)
          \<and> fst (df' ! i) = (if fst (?df ! i) = ''SLA_Breached'' then ''IsInsurable'' else fst (?df ! i))"
    by simp
  with d have "df' = [(''id'', int_column [7, 8]), (''sla_breached'', int_column [1, 1]),
      (''IsInsurable'', int_column [0, 1])]"
    by (simp add: prod_eq_iff)
  with r load_dataset_rename [OF h1 h3] show ?thesis
    by (simp add: columns_def)
qed

section \<open>Binary detection: claim C2\<close>

lemma unique_keys: "py_key ` set (unique xs) = py_key ` set xs"
  by (induction xs rule: unique.induct) (auto simp: py_eq_def)

lemma unique_distinct: "distinct (map py_key (unique xs))"
proof (induction xs rule: unique.induct)
  case 1
  show ?case by simp
next
  case (2 x xs)
  have "py_key x \<notin> py_key ` set (unique (filter (\<lambda>y. \<not> py_eq y x) xs))"
    by (auto simp: unique_keys py_eq_def)
  with 2 show ?case by simp
qed

lemma unique_subset: "set (unique xs) \<subseteq> set xs"
  by (induction xs rule: unique.induct) auto

lemma length_unique: "length (unique xs) = card (py_key ` set xs)"
proof -
  have "length (unique xs) = length (map py_key (unique xs))" by simp
  also have "\<dots> = card (set (map py_key (unique xs)))"
    by (simp only: distinct_card [OF unique_distinct])
  also have "\<dots> = card (py_key ` set xs)"
    by (simp add: unique_keys)
  finally show ?thesis .
qed

lemma word_ok_bool: "word_ok (BoolV b)"
  by (cases b) (simp_all add: word_ok_def, code_simp+)

lemma word_ok_01: "word_ok (IntV 0)" "word_ok (IntV 1)"
  unfolding word_ok_def by code_simp+

lemma word_ok_key: "py_key a = py_key b \<Longrightarrow> word_ok a = word_ok b"
  by (cases a; cases b) (auto simp: word_ok_bool word_ok_01 split: if_splits)

lemma word_ok_unique: "(\<forall>v\<in>set (unique xs). word_ok v) \<longleftrightarrow> (\<forall>v\<in>set xs. word_ok v)"
proof
  assume l: "\<forall>v\<in>set (unique xs). word_ok v"
  show "\<forall>v\<in>set xs. word_ok v"
  proof
    fix v assume "v \<in> set xs"
    then have "py_key v \<in> py_key ` set (unique xs)" by (simp add: unique_keys)
    then obtain u where "u \<in> set (unique xs)" "py_key v = py_key u" by auto
    with l show "word_ok v" by (auto dest: word_ok_key)
  qed
next
  assume "\<forall>v\<in>set xs. word_ok v"
  then show "\<forall>v\<in>set (unique xs). word_ok v" using unique_subset [of xs] by auto
qed

text \<open>
  C2, as amended. A column is binary exactly when (a) its dtype is natively boolean, or
  it has at least one non-missing value and (b) its non-missing values are at most two
  distinct values, or (c) every non-missing value that is not blank is, stripped and
  lower-cased, one of yes, no, true, false, 0, 1. So a column without a non-missing
  value is binary only when its dtype is boolean. Distinct is meant as \<open>unique\<close> means
  it: up to Python's equality, under which \<open>True\<close> is 1 and \<open>False\<close> is 0.
\<close>

theorem is_binary_characterisation:
  "is_binary s \<longleftrightarrow>
     dtype s = BoolDtype
     \<or> ((\<exists>c\<in>set (cells s). c \<noteq> NA)
        \<and> (card (py_key ` {c \<in> set (cells s). c \<noteq> NA}) \<le> 2
           \<or> (\<forall>c\<in>set (cells s). c \<noteq> NA \<longrightarrow> strip (str_cell c) \<noteq> [] \<longrightarrow>
                 lower (strip (str_cell c)) \<in> set binary_words)))"
proof -
  define vs where "vs = dropna (cells s)"
  define W where "W = (set (map (\<lambda>v. lower (strip (str_cell v)))
                    (filter (\<lambda>v. strip (str_cell v) \<noteq> []) (unique vs))) \<subseteq> set binary_words)"
  have set_vs: "set vs = {c \<in> set (cells s). c \<noteq> NA}"
    by (auto simp: vs_def dropna_def)
  have len: "length (unique vs) = card (py_key ` {c \<in> set (cells s). c \<noteq> NA})"
    by (simp add: length_unique set_vs)
  have "unique vs = [] \<longleftrightarrow> set vs = {}"
    by (cases vs) simp_all
  then have empty: "unique vs \<noteq> [] \<longleftrightarrow> (\<exists>c\<in>set (cells s). c \<noteq> NA)"
    unfolding set_vs by blast
  have words: "W \<longleftrightarrow> (\<forall>c\<in>set (cells s). c \<noteq> NA \<longrightarrow> word_ok c)"
  proof -
    have "W \<longleftrightarrow> (\<forall>v\<in>set (unique vs). word_ok v)"
      by (auto simp: W_def word_ok_def)
    also have "\<dots> \<longleftrightarrow> (\<forall>v\<in>set vs. word_ok v)" by (rule word_ok_unique)
    also have "\<dots> \<longleftrightarrow> (\<forall>c\<in>set (cells s). c \<noteq> NA \<longrightarrow> word_ok c)" unfolding set_vs by blast
    finally show ?thesis .
  qed
  have "is_binary s \<longleftrightarrow> dtype s = BoolDtype \<or> (unique vs \<noteq> [] \<and> (length (unique vs) \<le> 2 \<or> W))"
    unfolding is_binary_def Let_def vs_def [symmetric] W_def [symmetric] by simp
  then show ?thesis
    by (simp only: words empty len word_ok_def)
qed

theorem is_binary_characterisation_witness:
  "is_binary \<lparr>dtype = ObjectDtype, cells = [StrV ''Yes '', NA, StrV ''no'', StrV ''TRUE'', StrV '' '']\<rparr>
   \<and> \<not> is_binary \<lparr>dtype = ObjectDtype, cells = [NA, NA]\<rparr>"
proof -
  let ?s = "\<lparr>dtype = ObjectDtype, cells = [StrV ''Yes '', NA, StrV ''no'', StrV ''TRUE'', StrV '' '']\<rparr>"
  let ?e = "\<lparr>dtype = ObjectDtype, cells = [NA, NA]\<rparr>"
  have a: "\<exists>c\<in>set (cells ?s). c \<noteq> NA" by simp
  have b: "\<forall>c\<in>set (cells ?s). c \<noteq> NA \<longrightarrow> strip (str_cell c) \<noteq> [] \<longrightarrow>
                 lower (strip (str_cell c)) \<in> set binary_words"
    by code_simp
  have c: "\<not> (\<exists>c\<in>set (cells ?e). c \<noteq> NA)" "dtype ?e \<noteq> BoolDtype" by simp_all
  from a b is_binary_characterisation [of ?s] have "is_binary ?s"
    by blast
  moreover from c is_binary_characterisation [of ?e] have "\<not> is_binary ?e"
    by blast
  ultimately show ?thesis by simp
qed

text \<open>
  C2 as stated fails on a boolean column without rows (what is left of a boolean column
  when a filter keeps no row): it has no non-missing value and it is binary, by the
  first test of \<open>_is_binary\<close>.
\<close>

theorem is_binary_empty_bool_counterexample:
  "dtype (bool_column []) = BoolDtype \<and> dropna (cells (bool_column [])) = []
   \<and> is_binary (bool_column [])"
  by (simp add: bool_column_def dropna_def is_binary_def)

section \<open>Lemmas on the target selector\<close>

lemma lower_char_i: "lower_char c = CHR ''i'' \<longleftrightarrow> c = CHR ''I'' \<or> c = CHR ''i''"
proof -
  define n where "n = (of_char c :: nat)"
  have code_i: "(of_char (CHR ''i'') :: nat) = 105" by simp
  have code_I: "(of_char (CHR ''I'') :: nat) = 73" by simp
  have ci: "c = CHR ''i'' \<longleftrightarrow> n = 105"
    unfolding n_def by (metis of_char_eq_iff code_i)
  have cI: "c = CHR ''I'' \<longleftrightarrow> n = 73"
    unfolding n_def by (metis of_char_eq_iff code_I)
  show ?thesis
  proof (cases "(65 \<le> n \<and> n \<le> 90) \<or> (192 \<le> n \<and> n \<le> 222 \<and> n \<noteq> 215)")
    case True
    then have small: "n + 32 < 2 ^ 8" by auto
    have "lower_char c = char_of (n + 32)"
      using True by (simp add: lower_char_def n_def)
    then have "lower_char c = CHR ''i'' \<longleftrightarrow> take_bit 8 (n + 32) = (105::nat)"
      by (simp add: char_of_eq_iff)
    also have "\<dots> \<longleftrightarrow> n = 73"
      using small by (simp add: take_bit_nat_eq_self)
    finally have "lower_char c = CHR ''i'' \<longleftrightarrow> n = 73" .
    moreover from True have "n \<noteq> 105" by auto
    ultimately show ?thesis using ci cI by simp
  next
    case False
    then have lc: "lower_char c = c" by (auto simp add: lower_char_def n_def Let_def)
    from False have "n \<noteq> 73" by auto
    with cI show ?thesis unfolding lc by simp
  qed
qed

lemma starts_with_i_iff: "starts_with_i col = name_starts_with_I col"
proof (cases col)
  case Nil
  then show ?thesis by (simp add: starts_with_i_def name_starts_with_I_def lower_def)
next
  case (Cons c cs)
  have "starts_with_i col \<longleftrightarrow> lower_char c = CHR ''i''"
    using Cons by (auto simp: starts_with_i_def lower_def)
  then show ?thesis
    using Cons by (simp add: lower_char_i name_starts_with_I_def)
qed

text \<open>In a table where no label occurs twice, \<open>df[col]\<close> is the series of the column.\<close>

lemma filter_label_distinct:
  "distinct (map fst df) \<Longrightarrow> (col, s) \<in> set df \<Longrightarrow>
   filter (\<lambda>(label, s). label = col) df = [(col, s)]"
proof (induction df)
  case Nil
  then show ?case by simp
next
  case (Cons a df)
  obtain n t where a: "a = (n, t)" by (cases a)
  show ?case
  proof (cases "n = col")
    case True
    with Cons.prems a have notin: "col \<notin> fst ` set df" by simp
    then have "filter (\<lambda>(label, s). label = col) df = []"
      by (auto simp: filter_empty_conv image_iff)
    moreover from notin Cons.prems a True have "t = s" by (auto simp: image_iff)
    ultimately show ?thesis using a True by simp
  next
    case False
    with Cons a show ?thesis by auto
  qed
qed

lemma getitem_distinct:
  assumes "distinct (columns df)" and "col \<in> set (columns df)"
  shows "\<exists>s. getitem df col = Inr (OneSeries s) \<and> map_of df col = Some s"
proof -
  from assms(2) obtain s where s: "(col, s) \<in> set df"
    by (auto simp: columns_def)
  from assms(1) have d: "distinct (map fst df)" by (simp add: columns_def)
  from d s have "getitem df col = Inr (OneSeries s)"
    by (simp add: getitem_def filter_label_distinct)
  moreover from d s have "map_of df col = Some s" by (rule map_of_is_SomeI)
  ultimately show ?thesis by blast
qed

text \<open>Then the comprehension is a filter.\<close>

lemma binary_cols_filter:
  "distinct (columns df) \<Longrightarrow> set cs \<subseteq> set (columns df) \<Longrightarrow>
   binary_cols df cs = Inr (filter (column_is_binary df) cs)"
proof (induction cs)
  case Nil
  show ?case by simp
next
  case (Cons c cs)
  then obtain s where s: "getitem df c = Inr (OneSeries s)" "map_of df c = Some s"
    using getitem_distinct [of df c] by auto
  from Cons have "binary_cols df cs = Inr (filter (column_is_binary df) cs)" by simp
  moreover have "column_is_binary df c = is_binary s"
    using s by (simp add: column_is_binary_def)
  ultimately show ?case using s by simp
qed

lemma heuristic_target_spec:
  assumes "distinct (columns df)"
  shows "heuristic_target df = Inr (spec_heuristic df)"
proof -
  from assms
  have b: "binary_cols df (columns df) = Inr (filter (column_is_binary df) (columns df))"
    by (rule binary_cols_filter) simp
  show ?thesis
    by (simp add: heuristic_target_def spec_heuristic_def b find_filter_hd starts_with_i_iff
        split: list.splits)
qed

text \<open>Whatever the labels: what the comprehension returns, and how it fails.\<close>

lemma binary_cols_subset: "binary_cols df cs = Inr bs \<Longrightarrow> set bs \<subseteq> set cs"
proof (induction cs arbitrary: bs)
  case Nil
  then show ?case by simp
next
  case (Cons c cs)
  then show ?case
    by (auto split: sum.splits if_splits)
qed





lemma heuristic_target_column:
  assumes "columns df \<noteq> []" and "heuristic_target df = Inr col"
  shows "col \<in> set (columns df)"
proof (cases "binary_cols df (columns df)")
  case (Inl e)
  with assms(2) show ?thesis by (simp add: heuristic_target_def)
next
  case (Inr bcs)
  then have sub: "set bcs \<subseteq> set (columns df)" by (rule binary_cols_subset)
  have "set (filter starts_with_i bcs) \<subseteq> set bcs" by auto
  with sub have sub': "set (filter starts_with_i bcs) \<subseteq> set (columns df)" by blast
  show ?thesis
  proof (cases "filter starts_with_i bcs")
    case (Cons p ps)
    with sub' have "p \<in> set (columns df)" by auto
    with Cons Inr assms(2) show ?thesis by (simp add: heuristic_target_def)
  next
    case Nil
    show ?thesis
    proof (cases bcs)
      case (Cons b bs)
      with sub have "b \<in> set (columns df)" by auto
      with Cons Nil Inr assms(2) show ?thesis
        by (simp add: heuristic_target_def del: filter.simps)
    next
      case empty: Nil
      with Inr Nil assms(2) have "col = last (columns df)"
        by (simp add: heuristic_target_def)
      with assms(1) show ?thesis by simp
    qed
  qed
qed

lemma spec_heuristic_column: "columns df \<noteq> [] \<Longrightarrow> spec_heuristic df \<in> set (columns df)"
  by (auto simp: spec_heuristic_def split: option.splits dest: find_mem)

lemma resolve_spec:
  "resolve sc df (Some name) = (if name = [] then None else spec_resolve sc df (Some name))"
  by (simp add: spec_resolve_def Let_def)

lemma nonempty_resolve_truthy:
  "nonempty_resolve sc df c = (if truthy (resolve sc df c) then resolve sc df c else None)"
proof (cases c)
  case None
  then show ?thesis by (simp add: nonempty_resolve_def)
next
  case (Some name)
  then show ?thesis
    by (cases "spec_resolve sc df (Some name)")
       (simp_all add: nonempty_resolve_def resolve_spec del: resolve.simps)
qed

lemma resolve_column: "resolve sc df c = Some col \<Longrightarrow> col \<in> set (columns df)"
  by (cases c) (auto simp: Let_def split: if_splits)

lemma explicit_target_column:
  "explicit_target sc env df pref = Some col \<Longrightarrow> col \<in> set (columns df)"
  by (auto simp: explicit_target_def py_or_def simp del: resolve.simps split: if_splits
      dest: resolve_column)

lemma resolve_empty_match:
  "resolve sc df (Some name) = Some [] \<Longrightarrow>
   [] \<in> set (columns df) \<and> (strip name = [] \<or> sc (strip name) = [])"
  by (auto simp: Let_def split: if_splits)

lemma guess_target_column_nonempty:
  assumes "columns df \<noteq> []" and "distinct (columns df)"
  shows "guess_target_column sc env df pref = Inr (nonempty_guess_target sc env df pref)"
  using assms
  by (cases "resolve sc df pref"; cases "resolve sc df env";
      cases "resolve sc df (Some ''IsInsurable'')")
     (simp_all add: guess_target_column_def explicit_target_def py_or_def
        nonempty_guess_target_def nonempty_resolve_truthy heuristic_target_spec)

section \<open>The target selector: claims C1, C3, C4 and C10\<close>

text \<open>
  C1, as amended. On a table with at least one column and no label occurring twice,
  whatever the preferred name and the value of \<open>TARGET\<close>, \<open>guess_target_column\<close>
  returns the result of the first step that succeeds among: (1) resolve the preferred
  name, (2) resolve the value of \<open>TARGET\<close>, (3) resolve \<open>IsInsurable\<close>, (4) the first
  column in table order that is binary and whose name starts with I or i, (5) the first
  binary column in table order, (6) the last column. To resolve a candidate is to trim
  it, and to take it when it is a column, else its sanitized form when that is a column;
  a resolution step succeeds only when the candidate is given and not empty and the name
  matched is not empty.
\<close>

theorem guess_target_priority_order:
  "columns df \<noteq> [] \<Longrightarrow> distinct (columns df) \<Longrightarrow>
   guess_target_column safe_col env_target df preferred
     = Inr (nonempty_guess_target safe_col env_target df preferred)"
  by (rule guess_target_column_nonempty)

theorem guess_target_priority_order_witness:
  "guess_target_column lower None
      [(''id'', int_column [1, 2, 3]), (''target'', int_column [0, 1, 1]),
       (''Amount'', int_column [5, 6, 7])]
      (Some ''Target '') = Inr ''target''
   \<and> guess_target_column id None
      [(''id'', int_column [1, 2, 3]), (''IsFraud'', int_column [0, 1, 1]),
       (''Amount'', int_column [5, 6, 7])]
      None = Inr ''IsFraud''"
proof -
  let ?t = "[(''id'', int_column [1, 2, 3]), (''target'', int_column [0, 1, 1]),
             (''Amount'', int_column [5, 6, 7])]"
  let ?f = "[(''id'', int_column [1, 2, 3]), (''IsFraud'', int_column [0, 1, 1]),
             (''Amount'', int_column [5, 6, 7])]"
  have ht: "columns ?t \<noteq> []" and hf: "columns ?f \<noteq> []"
    by (simp_all add: columns_def)
  have dt: "distinct (columns ?t)" and df: "distinct (columns ?f)"
    by (simp_all add: columns_def)
  have et: "nonempty_guess_target lower None ?t (Some ''Target '') = ''target''"
    by code_simp
  have ef: "nonempty_guess_target id None ?f None = ''IsFraud''"
    by code_simp
  from guess_target_priority_order [OF ht dt, of lower None "Some ''Target ''"]
       guess_target_priority_order [OF hf df, of id None None]
  show ?thesis
    by (simp only: et ef simp_thms)
qed

text \<open>
  C1 as stated fails in three ways. A preferred name of one blank trims to the empty
  string; on a table with a column of that name the specification's step 1 succeeds
  with it, and the code goes on to the last column. An empty \<open>TARGET\<close> whose sanitized
  form is a column is a match for the specification's step 2, and is not resolved at
  all by the code. And on a table whose two columns have the same label, where step 6
  gives that label, \<open>df[col]\<close> is a \<open>DataFrame\<close> and \<open>_is_binary\<close> raises
  \<open>AttributeError\<close>.
\<close>

theorem guess_target_priority_counterexample:
  "guess_target_column id None
      [([], text_column [''a'', ''b'', ''c'']), (''x'', int_column [1, 2, 3])] (Some '' '')
     = Inr ''x''
   \<and> spec_guess_target id None
      [([], text_column [''a'', ''b'', ''c'']), (''x'', int_column [1, 2, 3])] (Some '' '')
     = []
   \<and> guess_target_column ((@) ''col_'') (Some [])
      [(''col_'', text_column [''a'', ''b'', ''c'']), (''x'', int_column [1, 2, 3])] None
     = Inr ''x''
   \<and> spec_guess_target ((@) ''col_'') (Some [])
      [(''col_'', text_column [''a'', ''b'', ''c'']), (''x'', int_column [1, 2, 3])] None
     = ''col_''
   \<and> guess_target_column id None
      [(''a'', int_column [1, 2, 3]), (''a'', int_column [4, 5, 6])] None
     = Inl (AttributeError ''dtype'')
   \<and> spec_guess_target id None
      [(''a'', int_column [1, 2, 3]), (''a'', int_column [4, 5, 6])] None
     = ''a''"
  by (intro conjI; code_simp)

text \<open>
  C3. Whatever the preferred name and the value of \<open>TARGET\<close>, a name that
  \<open>guess_target_column\<close> returns is a column of the table.
\<close>

theorem guess_target_returns_column:
  assumes "guess_target_column safe_col env_target df preferred = Inr col"
  shows "col \<in> set (columns df)"
proof -
  from assms have ne: "columns df \<noteq> []"
    by (auto simp: guess_target_column_def)
  show ?thesis
  proof (cases "explicit_target safe_col env_target df preferred")
    case None
    with assms ne have "heuristic_target df = Inr col"
      by (simp add: guess_target_column_def)
    with ne show ?thesis by (rule heuristic_target_column)
  next
    case (Some e)
    show ?thesis
    proof (cases "e = []")
      case True
      with Some assms ne have "heuristic_target df = Inr col"
        by (simp add: guess_target_column_def)
      with ne show ?thesis by (rule heuristic_target_column)
    next
      case False
      with Some assms ne have "col = e"
        by (simp add: guess_target_column_def)
      with Some show ?thesis by (simp add: explicit_target_column)
    qed
  qed
qed

theorem guess_target_returns_column_witness:
  "guess_target_column id (Some ''Amount'')
      [(''id'', int_column [1, 2, 3]), (''IsFraud'', int_column [0, 1, 1]),
       (''Amount'', int_column [5, 6, 7])]
      None = Inr ''Amount''
   \<and> ''Amount'' \<in> set (columns
      [(''id'', int_column [1, 2, 3]), (''IsFraud'', int_column [0, 1, 1]),
       (''Amount'', int_column [5, 6, 7])])"
proof -
  let ?f = "[(''id'', int_column [1, 2, 3]), (''IsFraud'', int_column [0, 1, 1]),
             (''Amount'', int_column [5, 6, 7])]"
  have g: "guess_target_column id (Some ''Amount'') ?f None = Inr ''Amount''"
    by code_simp
  from guess_target_returns_column [OF g] g show ?thesis
    by (intro conjI)
qed




text \<open>
  C10. On a table with at least one column, when each of the three resolutions (of the
  preferred name, of \<open>TARGET\<close>, of \<open>IsInsurable\<close>) gives no match or the empty string,
  \<open>guess_target_column\<close> does what the binary-column heuristics do (steps 4 to 6, which
  return a column when no label occurs twice): a match that is the empty string is not
  returned. A resolution gives the empty string only when the table has a column of
  that name and the trimmed candidate, or its sanitized form, is the empty string.
\<close>

theorem guess_target_discards_empty_match:
  assumes "columns df \<noteq> []"
    and "\<forall>c\<in>{preferred, env_target, Some ''IsInsurable''}.
           resolve safe_col df c = None \<or> resolve safe_col df c = Some []"
  shows "guess_target_column safe_col env_target df preferred = heuristic_target df
         \<and> (distinct (columns df) \<longrightarrow> heuristic_target df = Inr (spec_heuristic df))
         \<and> (\<forall>c\<in>{preferred, env_target, Some ''IsInsurable''}. \<forall>name.
              c = Some name \<longrightarrow> resolve safe_col df c = Some [] \<longrightarrow>
              [] \<in> set (columns df) \<and> (strip name = [] \<or> safe_col (strip name) = []))"
proof -
  from assms(2) have f: "\<not> truthy (resolve safe_col df preferred)"
      "\<not> truthy (resolve safe_col df env_target)"
      "\<not> truthy (resolve safe_col df (Some ''IsInsurable''))"
    by auto
  then have "explicit_target safe_col env_target df preferred
      = resolve safe_col df (Some ''IsInsurable'')"
    by (simp add: explicit_target_def py_or_def)
  with f(3) assms(1)
  have "guess_target_column safe_col env_target df preferred = heuristic_target df"
    by (cases "resolve safe_col df (Some ''IsInsurable'')")
       (simp_all add: guess_target_column_def)
  then show ?thesis
    using resolve_empty_match [of safe_col df] by (auto simp: heuristic_target_spec)
qed

theorem guess_target_discards_empty_match_witness:
  "resolve id [([], text_column [''a'', ''b'', ''c'']), (''x'', int_column [1, 2, 3])] (Some '' '')
     = Some []
   \<and> guess_target_column id None
       [([], text_column [''a'', ''b'', ''c'']), (''x'', int_column [1, 2, 3])] (Some '' '')
     = Inr ''x''"
proof -
  let ?t = "[([], text_column [''a'', ''b'', ''c'']), (''x'', int_column [1, 2, 3])]"
  have h1: "columns ?t \<noteq> []" by (simp add: columns_def)
  have r1: "resolve id ?t (Some '' '') = Some []" by code_simp
  have r2: "resolve id ?t None = None" by simp
  have r3: "resolve id ?t (Some ''IsInsurable'') = None" by code_simp
  from r1 r2 r3
  have h2: "\<forall>c\<in>{Some '' '', None, Some ''IsInsurable''}.
      resolve id ?t c = None \<or> resolve id ?t c = Some []"
    by blast
  have h: "heuristic_target ?t = Inr ''x''" by code_simp
  from guess_target_discards_empty_match [OF h1 h2]
  have "guess_target_column id None ?t (Some '' '') = heuristic_target ?t"
    by (rule conjunct1)
  with h r1 show ?thesis
    by (simp only: simp_thms)
qed

end
